theory Spec2Isabelle
  imports Main
begin

section \<open>Database.num_rows (fetch.py)\<close>

text \<open>
  \<^verbatim>\<open>
  def num_rows(self):
      if self._num_rows is None:  return None
      elif self.degrees == "all":    return self._num_rows * 8
      elif self.degrees == "flip":   return self._num_rows * 2
      elif self.degrees == "rotate": return self._num_rows * 4
      return self._num_rows
  \<close>
  The configured limit is a Python integer or \<open>None\<close>; the result is the same.
\<close>

definition num_rows :: "int option \<Rightarrow> string \<Rightarrow> int option" where
  "num_rows n_rows degrees =
     (case n_rows of
        None \<Rightarrow> None
      | Some n \<Rightarrow>
          if degrees = ''all'' then Some (n * 8)
          else if degrees = ''flip'' then Some (n * 2)
          else if degrees = ''rotate'' then Some (n * 4)
          else Some n)"

section \<open>Images and FeatureExtractor.make_square_with_bb (feature.py)\<close>

text \<open>
  An image is its size and its pixel grid; \<open>getpixel im u v\<close> is the pixel in column
  \<open>u\<close> and row \<open>v\<close>, meaningful for \<open>u < im_width im\<close> and \<open>v < im_height im\<close>.
  The pixel type is a parameter. Pixel values are taken in the mode of the canvas: the
  mode conversion that \<open>paste\<close> performs on an image of another mode is not part of
  the model.
\<close>

record 'p image =
  im_width :: nat
  im_height :: nat
  getpixel :: "nat \<Rightarrow> nat \<Rightarrow> 'p"

text \<open>\<open>Image.new(mode, (size, size), fill_color)\<close>: a square canvas of one colour.\<close>

definition Image_new :: "int \<Rightarrow> 'p \<Rightarrow> 'p image" where
  "Image_new sz fill_color =
     \<lparr>im_width = nat sz, im_height = nat sz, getpixel = (\<lambda>u v. fill_color)\<rparr>"

text \<open>
  \<open>canvas.paste(im, (ox, oy))\<close>: the pixels of \<open>im\<close> replace those of the canvas in the
  box whose upper left corner is \<open>(ox, oy)\<close>; the canvas keeps its size.
\<close>

definition paste :: "'p image \<Rightarrow> 'p image \<Rightarrow> int \<times> int \<Rightarrow> 'p image" where
  "paste canvas im box =
     (case box of (ox, oy) \<Rightarrow>
        canvas\<lparr>getpixel := (\<lambda>u v.
          if ox \<le> int u \<and> int u < ox + int (im_width im) \<and>
             oy \<le> int v \<and> int v < oy + int (im_height im)
          then getpixel im (nat (int u - ox)) (nat (int v - oy))
          else getpixel canvas u v)\<rparr>)"

text \<open>
  \<open>int(n / 2)\<close>: Python's true division followed by truncation towards zero (exact as
  long as \<open>n\<close> is below \<open>2 ^ 53\<close> in absolute value, which pixel counts are).
\<close>

definition int_half :: "int \<Rightarrow> int" where
  "int_half n = (if 0 \<le> n then n div 2 else - ((- n) div 2))"

text \<open>
  \<^verbatim>\<open>
  def make_square_with_bb(im, min_size=256, fill_color=(0, 0, 0, 0), mode="RGB"):
      x, y = im.size
      size = max(min_size, x, y)
      new_im = Image.new(mode, (size, size), fill_color)
      new_im.paste(im, (int((size - x) / 2), int((size - y) / 2)))
      return new_im
  \<close>
\<close>

definition make_square_with_bb :: "'p image \<Rightarrow> int \<Rightarrow> 'p \<Rightarrow> 'p image" where
  "make_square_with_bb im min_size fill_color =
     (let x = int (im_width im);
          y = int (im_height im);
          sz = max min_size (max x y);
          new_im = Image_new sz fill_color
      in paste new_im im (int_half (sz - x), int_half (sz - y)))"

section \<open>Python values: exceptions, strings, table cells\<close>

text \<open>The exception classes the two modules raise or handle.\<close>

datatype exn =
    AttributeError | KeyError | IndexError | ValueError | OSError
  | Timeout | RequestException | OtherException

text \<open>
  A table cell is a string or the missing value (the float \<open>nan\<close>). A row (a pandas
  Series) is the list of its labelled cells in column order: \<open>row[name]\<close> looks a
  label up, \<open>row[9]\<close> (an integer on string labels) is the positional access.
\<close>

datatype cell = Str string | NaN

type_synonym row = "(string \<times> cell) list"

definition row_get :: "row \<Rightarrow> string \<Rightarrow> exn + cell" where
  "row_get r name = (case map_of r name of None \<Rightarrow> Inl KeyError | Some c \<Rightarrow> Inr c)"

definition row_pos :: "row \<Rightarrow> nat \<Rightarrow> exn + cell" where
  "row_pos r n = (if n < length r then Inr (snd (r ! n)) else Inl IndexError)"


text \<open>\<open>s.replace(old, new)\<close> for a one-character \<open>old\<close>.\<close>

definition str_replace :: "char \<Rightarrow> string \<Rightarrow> string \<Rightarrow> string" where
  "str_replace old new s = concat (map (\<lambda>c. if c = old then new else [c]) s)"

text \<open>\<open>x.replace(' ', delim)\<close> on a cell: the float \<open>nan\<close> has no such method.\<close>

definition cell_replace :: "cell \<Rightarrow> string \<Rightarrow> exn + string" where
  "cell_replace c delim =
     (case c of Str s \<Rightarrow> Inr (str_replace (CHR '' '') delim s) | NaN \<Rightarrow> Inl AttributeError)"

text \<open>
  \<open>s.split(sep)\<close>: the fields between the non-overlapping occurrences of \<open>sep\<close>, found
  from the left; an empty separator is a \<open>ValueError\<close>. \<open>cur\<close> is the field being read.
\<close>

function split_from :: "string \<Rightarrow> string \<Rightarrow> string \<Rightarrow> string list" where
  "split_from sep cur s =
     (if sep = [] then [cur @ s]
      else if s = [] then [cur]
      else if take (length sep) s = sep
        then cur # split_from sep [] (drop (length sep) s)
      else split_from sep (cur @ [hd s]) (tl s))"
  by pat_completeness auto
termination
  by (relation "measure (\<lambda>(sep, cur, s). length s)") auto

declare split_from.simps [simp del]

definition str_split :: "string \<Rightarrow> string \<Rightarrow> exn + string list" where
  "str_split sep s = (if sep = [] then Inl ValueError else Inr (split_from sep [] s))"

text \<open>\<open>x.split(sep)\<close> on a cell.\<close>

definition cell_split :: "cell \<Rightarrow> string \<Rightarrow> exn + string list" where
  "cell_split c sep = (case c of Str s \<Rightarrow> str_split sep s | NaN \<Rightarrow> Inl AttributeError)"

text \<open>\<open>xs[-1]\<close> and \<open>xs[-2]\<close>.\<close>

definition item_last :: "'a list \<Rightarrow> exn + 'a" where
  "item_last xs = (if xs = [] then Inl IndexError else Inr (last xs))"


text \<open>\<open>str(n)\<close> of an integer: its decimal digits, with a sign when negative.\<close>

definition digit_char :: "nat \<Rightarrow> char" where
  "digit_char d = char_of (48 + d)"

function digits :: "nat \<Rightarrow> string" where
  "digits n = (if n < 10 then [digit_char n] else digits (n div 10) @ [digit_char (n mod 10)])"
  by pat_completeness auto
termination
  by (relation "measure id") auto

declare digits.simps [simp del]

definition str_int :: "int \<Rightarrow> string" where
  "str_int i = (if i < 0 then CHR ''-'' # digits (nat (- i)) else digits (nat i))"

section \<open>The file system and the observable calls\<close>

text \<open>
  The state the modules act on: the image files (a path has the stored image as its
  content), the directories, and the trace of the calls whose number and order the
  properties are about. Console and log output is not part of the state. Of
  \<open>os.makedirs\<close> only the directory named is recorded, not the parents it creates on the
  way.
\<close>

type_synonym dataframe = "(int \<times> row) list"

datatype event =
    NetGet cell
  | Augment dataframe string
  | ToCsv string dataframe

record 'p world =
  files :: "string \<rightharpoonup> 'p image"
  dirs :: "string set"
  trace :: "event list"

text \<open>\<open>os.path.exists(path)\<close>\<close>

definition path_exists :: "'p world \<Rightarrow> string \<Rightarrow> bool" where
  "path_exists w path \<longleftrightarrow> files w path \<noteq> None \<or> path \<in> dirs w"



text \<open>
  The constants of \<open>core.util.constants\<close> and the library operations on images that the
  two modules use, as parameters: the default fill colour \<open>(0, 0, 0, 0)\<close>,
  \<open>img.resize((416, 416))\<close>, and \<open>Image.fromarray(lbp(img, method, radius))\<close>.
\<close>

record 'p env =
  IMGDIR_PATH :: string
  DIRNAME_DELIM :: string
  PATH_SEP :: string
  DATASET_PATH :: string
  fill_default :: 'p
  resize416 :: "'p image \<Rightarrow> 'p image"
  lbp_image :: "'p image \<Rightarrow> 'p image"

section \<open>Path functions\<close>

text \<open>
  \<^verbatim>\<open>
  def img_path_from_row(row, index, column="identifier", extra=None):
      try:
          path = f"{IMGDIR_PATH}{row['species'].replace(' ', DIRNAME_DELIM)}"
      except AttributeError as e:
          print(f"{row} error: \n {e}")
          raise e
      if not os.path.exists(path):
          os.makedirs(path, exist_ok=True)
      extension = row[column].split(".")[-1]
      if len(extension) < 1:
          extension = "jpg"
      out = f"{IMGDIR_PATH}{row[9].replace(' ', DIRNAME_DELIM)}/{index}"
      if extra:
          out += extra
      return out + "_0.npy"
  \<close>
  The result is the exception raised or the path, with the file system as the call
  leaves it. The directory is created only where nothing of that name exists, so
  \<open>makedirs\<close> cannot meet a file there.
\<close>

definition img_path_from_row ::
  "'p env \<Rightarrow> 'p world \<Rightarrow> row \<Rightarrow> int \<Rightarrow> string \<Rightarrow> string option \<Rightarrow> (exn + string) \<times> 'p world" where
  "img_path_from_row E w r index column extra =
     (case row_get r ''species'' of
        Inl e \<Rightarrow> (Inl e, w)
      | Inr sp \<Rightarrow>
     (case cell_replace sp (DIRNAME_DELIM E) of
        Inl e \<Rightarrow> (Inl e, w)
      | Inr d \<Rightarrow>
     (let path = IMGDIR_PATH E @ d;
          w1 = (if \<not> path_exists w path then w\<lparr>dirs := insert path (dirs w)\<rparr> else w)
      in
     (case row_get r column of
        Inl e \<Rightarrow> (Inl e, w1)
      | Inr lnk \<Rightarrow>
     (case cell_split lnk ''.'' of
        Inl e \<Rightarrow> (Inl e, w1)
      | Inr parts \<Rightarrow>
     (case item_last parts of
        Inl e \<Rightarrow> (Inl e, w1)
      | Inr extension \<Rightarrow>
     (case row_pos r 9 of
        Inl e \<Rightarrow> (Inl e, w1)
      | Inr c9 \<Rightarrow>
     (case cell_replace c9 (DIRNAME_DELIM E) of
        Inl e \<Rightarrow> (Inl e, w1)
      | Inr d9 \<Rightarrow>
     (let out = IMGDIR_PATH E @ d9 @ ''/'' @ str_int index;
          out = (case extra of None \<Rightarrow> out | Some x \<Rightarrow> if x = [] then out else out @ x)
      in (Inr (out @ ''_0.npy''), w1))))))))))"




section \<open>Database.fetch_images (fetch.py)\<close>

text \<open>
  \<^verbatim>\<open>
  def save_img(row, index):
      path = self.img_path_from_row(row, index)
      out = np.nan
      if not os.path.exists(path):
          try:
              img = Image.open(requests.get(row[col], stream=True, timeout=40).raw)
              img = FeatureExtractor.make_square_with_bb(img)
              img = img.resize((416, 416))
              img = np.asarray(img)
              np.save(path, img, allow_pickle=True)
              out = path
          except requests.exceptions.Timeout: ...
          except requests.exceptions.RequestException as e: ...
          except ValueError as e: ...
          except OSError as e: ...
          except Exception as e: ...
      else:
          out = path
      return out
  \<close>
  Every handler only prints, so \<open>out\<close> stays \<open>nan\<close> whatever the exception is.
\<close>

definition except_clauses :: "exn \<Rightarrow> cell" where
  "except_clauses e =
     (case e of
        Timeout \<Rightarrow> NaN
      | RequestException \<Rightarrow> NaN
      | ValueError \<Rightarrow> NaN
      | OSError \<Rightarrow> NaN
      | _ \<Rightarrow> NaN)"

text \<open>
  What the network and the disk do for one unit is given from outside: \<open>fetched\<close> is the
  image that the request and \<open>Image.open\<close> yield, or the exception they raise;
  \<open>saved\<close> is the exception of \<open>np.save\<close>, if any. A save that fails leaves no file.
  The path ends in \<open>.npy\<close>, so \<open>np.save\<close> writes to the path as it is. The path
  computation stands before the \<open>try\<close>: its exception leaves the unit.
\<close>

definition save_img ::
  "'p env \<Rightarrow> string \<Rightarrow> exn + 'p image \<Rightarrow> exn option \<Rightarrow> 'p world \<Rightarrow> row \<Rightarrow> int
     \<Rightarrow> (exn + cell) \<times> 'p world" where
  "save_img E col fetched saved w r index =
     (case img_path_from_row E w r index ''identifier'' None of
        (Inl e, w1) \<Rightarrow> (Inl e, w1)
      | (Inr path, w1) \<Rightarrow>
          if \<not> path_exists w1 path then
            (case row_get r col of
               Inl e \<Rightarrow> (Inr (except_clauses e), w1)
             | Inr url \<Rightarrow>
                 (let w2 = w1\<lparr>trace := trace w1 @ [NetGet url]\<rparr> in
                  case fetched of
                    Inl e \<Rightarrow> (Inr (except_clauses e), w2)
                  | Inr img \<Rightarrow>
                      (let img = make_square_with_bb img 256 (fill_default E);
                           img = resize416 E img
                       in case saved of
                            Some e \<Rightarrow> (Inr (except_clauses e), w2)
                          | None \<Rightarrow> (Inr (Str path), w2\<lparr>files := (files w2)(path \<mapsto> img)\<rparr>))))
          else (Inr (Str path), w1))"

text \<open>
  \<^verbatim>\<open>
  with ThreadPoolExecutor(100) as executor:
      futures = [executor.submit(save_img, row, index) for index, row in df.iterrows()]
      concurrent.futures.wait(futures, timeout=None, return_when=ALL_COMPLETED)
      for i, ft in enumerate(futures):
          paths[i] = ft.result()
  \<close>
  The units run in the pool in an order the program does not choose: \<open>sched\<close> lists the
  positions of the units in the order in which they run, each unit as one step on the
  shared file system. A future holds the result of its unit once the unit has run: the
  value returned or the exception raised. \<open>net k\<close> and \<open>disk k\<close> are what network and disk
  do for the unit submitted at position \<open>k\<close>.
\<close>

fun run_units ::
  "'p env \<Rightarrow> string \<Rightarrow> (nat \<Rightarrow> exn + 'p image) \<Rightarrow> (nat \<Rightarrow> exn option) \<Rightarrow> dataframe
     \<Rightarrow> nat list \<Rightarrow> (exn + cell) option list \<times> 'p world
     \<Rightarrow> (exn + cell) option list \<times> 'p world" where
  "run_units E col net disk df [] st = st"
| "run_units E col net disk df (k # ks) (futs, w) =
     (if k < length df then
        (case df ! k of (index, r) \<Rightarrow>
           (case save_img E col (net k) (disk k) w r index of (res, w') \<Rightarrow>
              run_units E col net disk df ks (futs[k := Some res], w')))
      else run_units E col net disk df ks (futs, w))"

text \<open>
  The loop over \<open>enumerate(futures)\<close>: \<open>ft.result()\<close> raises the exception of its unit, and
  on a future whose unit never ran it would wait forever (the value \<open>None\<close>).
\<close>

fun write_back ::
  "nat \<Rightarrow> (exn + cell) option list \<Rightarrow> cell list \<Rightarrow> (exn + cell list) option" where
  "write_back i [] paths = Some (Inr paths)"
| "write_back i (ft # fts) paths =
     (case ft of
        None \<Rightarrow> None
      | Some (Inl e) \<Rightarrow> Some (Inl e)
      | Some (Inr c) \<Rightarrow> write_back (Suc i) fts (paths[i := c]))"




text \<open>
  The pooled part of \<open>fetch_images\<close>: the paths as the loop over the futures leaves them.
\<close>

definition fetch_paths ::
  "'p env \<Rightarrow> string \<Rightarrow> (nat \<Rightarrow> exn + 'p image) \<Rightarrow> (nat \<Rightarrow> exn option) \<Rightarrow> nat list
     \<Rightarrow> 'p world \<Rightarrow> dataframe \<Rightarrow> (exn + cell list) option \<times> 'p world" where
  "fetch_paths E col net disk sched w df =
     (let paths = replicate (length df) NaN;
          futures = replicate (length df) None
      in case run_units E col net disk df sched (futures, w) of
           (futures, w1) \<Rightarrow> (write_back 0 futures paths, w1))"


section \<open>FeatureExtractor.create\_augmented\_images (feature.py)\<close>

text \<open>\<open>name.split('.')[0]\<close>: a split has at least one field.\<close>

definition first_field :: "string \<Rightarrow> string" where
  "first_field name = (case split_from ''.'' [] name of [] \<Rightarrow> [] | x # xs \<Rightarrow> x)"

text \<open>
  \<^verbatim>\<open>
  def rotate_and_save_image(img_path, name, degree):
      try:
          image = Image.open(f"{img_path}/{name}")
          image.rotate(degree, expand=True).save(f"{img_path}/{name.split('.')[0]}_{degree}.jpg")
      except IOError:
          print("Error when trying to rotate and save images")

  def flip_and_save_image(img_path, name):
      try:
          image = Image.open(f"{img_path}/{name}")
          image.transpose(method=Image.Transpose.FLIP_LEFT_RIGHT).save(
              f"{img_path}/{name.split('.')[0]}f.jpg")
      except IOError:
          print("Error when trying to flip and save images")
  \<close>
  The operations of the image library are parameters: \<open>rot im degree\<close> is
  \<open>im.rotate(degree, expand=True)\<close>, \<open>flp im\<close> is the transposition left to right, and
  \<open>can_save im\<close> says whether the JPEG encoder accepts the image. A file that is missing
  and an image that is refused are an \<open>IOError\<close>, which is caught: nothing is written.
\<close>

definition rotate_and_save_image ::
  "('p image \<Rightarrow> int \<Rightarrow> 'p image) \<Rightarrow> ('p image \<Rightarrow> bool) \<Rightarrow> 'p world \<Rightarrow> string \<Rightarrow> string \<Rightarrow> int
     \<Rightarrow> 'p world" where
  "rotate_and_save_image rot can_save w img_path name degree =
     (case files w (img_path @ ''/'' @ name) of
        None \<Rightarrow> w
      | Some img \<Rightarrow>
          if can_save (rot img degree)
          then w\<lparr>files := (files w)
                 (img_path @ ''/'' @ first_field name @ ''_'' @ str_int degree @ ''.jpg''
                    \<mapsto> rot img degree)\<rparr>
          else w)"

definition flip_and_save_image ::
  "('p image \<Rightarrow> 'p image) \<Rightarrow> ('p image \<Rightarrow> bool) \<Rightarrow> 'p world \<Rightarrow> string \<Rightarrow> string \<Rightarrow> 'p world" where
  "flip_and_save_image flp can_save w img_path name =
     (case files w (img_path @ ''/'' @ name) of
        None \<Rightarrow> w
      | Some img \<Rightarrow>
          if can_save (flp img)
          then w\<lparr>files := (files w)
                 (img_path @ ''/'' @ first_field name @ ''f.jpg'' \<mapsto> flp img)\<rparr>
          else w)"

text \<open>
  \<^verbatim>\<open>
  def create_augmented_images(dir_path, degrees="all"):
      for sub_dir in os.walk(dir_path):
          for image_name in sub_dir[2]:
              if "all" == degrees:
                  for i in range(4):
                      FeatureExtractor.rotate_and_save_image(sub_dir[0], image_name, i * 90)
                      FeatureExtractor.flip_and_save_image(sub_dir[0],
                          f"{image_name.split('.')[0]}_{i * 90}.jpg")
              elif "rotate" == degrees:
                  for i in range(4):
                      FeatureExtractor.rotate_and_save_image(sub_dir[0], image_name, i * 90)
              elif "flip" == degrees:
                  FeatureExtractor.flip_and_save_image(sub_dir[0], image_name)
  \<close>
  The body of the inner loop, for one image name, and the two loops over what
  \<open>os.walk(dir_path)\<close> yields: for every directory its path, the names of its
  subdirectories and the names of its files, as listed when the walk reaches it.
\<close>

definition augment_image ::
  "('p image \<Rightarrow> int \<Rightarrow> 'p image) \<Rightarrow> ('p image \<Rightarrow> 'p image) \<Rightarrow> ('p image \<Rightarrow> bool)
     \<Rightarrow> 'p world \<Rightarrow> string \<Rightarrow> string \<Rightarrow> string \<Rightarrow> 'p world" where
  "augment_image rot flp can_save w dir image_name degrees =
     (if ''all'' = degrees then
        foldl (\<lambda>w i.
            flip_and_save_image flp can_save
              (rotate_and_save_image rot can_save w dir image_name (i * 90))
              dir (first_field image_name @ ''_'' @ str_int (i * 90) @ ''.jpg''))
          w [0, 1, 2, 3]
      else if ''rotate'' = degrees then
        foldl (\<lambda>w i. rotate_and_save_image rot can_save w dir image_name (i * 90))
          w [0, 1, 2, 3]
      else if ''flip'' = degrees then
        flip_and_save_image flp can_save w dir image_name
      else w)"

definition create_augmented_images ::
  "('p image \<Rightarrow> int \<Rightarrow> 'p image) \<Rightarrow> ('p image \<Rightarrow> 'p image) \<Rightarrow> ('p image \<Rightarrow> bool)
     \<Rightarrow> 'p world \<Rightarrow> (string \<times> string list \<times> string list) list \<Rightarrow> string \<Rightarrow> 'p world" where
  "create_augmented_images rot flp can_save w walk degrees =
     foldl (\<lambda>w sub_dir.
         foldl (\<lambda>w image_name.
             augment_image rot flp can_save w (fst sub_dir) image_name degrees)
           w (snd (snd sub_dir)))
       w walk"

section \<open>FeatureExtractor.pre\_process (feature.py)\<close>





section \<open>Test data\<close>

definition E0 :: "nat env" where
  "E0 = \<lparr>IMGDIR_PATH = ''img/'', DIRNAME_DELIM = ''_'', PATH_SEP = ''/'',
          DATASET_PATH = ''dataset.csv'', fill_default = 0,
          resize416 = (\<lambda>im. im), lbp_image = (\<lambda>im. im)\<rparr>"

definition w0 :: "nat world" where
  "w0 = \<lparr>files = Map.empty, dirs = {}, trace = []\<rparr>"

definition mk_row :: "string \<Rightarrow> string \<Rightarrow> row" where
  "mk_row link sp =
     [(''gbifID'', Str ''1''), (''identifier'', Str link), (''license'', NaN),
      (''kingdom'', NaN), (''phylum'', NaN), (''class'', NaN), (''order'', NaN),
      (''family'', NaN), (''genus'', NaN), (''species'', Str sp)]"

text \<open>A 2 by 3 test image whose pixel values encode their coordinates.\<close>

definition im0 :: "nat image" where
  "im0 = \<lparr>im_width = 2, im_height = 3, getpixel = (\<lambda>u v. u + 10 * v)\<rparr>"


definition df3 :: dataframe where
  "df3 = [(0, mk_row ''http://x.org/a.jpg'' ''Pieris rapae''),
          (1, mk_row ''http://x.org/b.jpg'' ''Pieris rapae''),
          (2, mk_row ''http://x.org/c.jpg'' ''Pieris napi'')]"


definition net_ok :: "nat \<Rightarrow> exn + nat image" where
  "net_ok k = Inr im0"

definition net_1_timeout :: "nat \<Rightarrow> exn + nat image" where
  "net_1_timeout k = (if k = 1 then Inl Timeout else Inr im0)"

definition disk_ok :: "nat \<Rightarrow> exn option" where
  "disk_ok k = None"


definition w_cached :: "nat world" where
  "w_cached = \<lparr>files = [''img/Pieris_rapae/0_0.npy'' \<mapsto> im0,
                        ''img/Pieris_rapae/1_0.npy'' \<mapsto> im0,
                        ''img/Pieris_napi/2_0.npy'' \<mapsto> im0],
               dirs = {''img/Pieris_rapae'', ''img/Pieris_napi''}, trace = []\<rparr>"

text \<open>
  A directory with one image, and image operations for the examples: the mirror image, the
  rotation by quarter turns, and an encoder that accepts every image.
\<close>

definition w_one :: "nat world" where
  "w_one = \<lparr>files = [''img/Pieris_rapae/a.jpg'' \<mapsto> im0],
            dirs = {''img/Pieris_rapae''}, trace = []\<rparr>"

definition mirror :: "'p image \<Rightarrow> 'p image" where
  "mirror im = im\<lparr>getpixel := (\<lambda>u v. getpixel im (im_width im - 1 - u) v)\<rparr>"

definition quarter :: "'p image \<Rightarrow> 'p image" where
  "quarter im = \<lparr>im_width = im_height im, im_height = im_width im,
                 getpixel = (\<lambda>u v. getpixel im (im_width im - 1 - v) u)\<rparr>"

definition quarter_turns :: "'p image \<Rightarrow> int \<Rightarrow> 'p image" where
  "quarter_turns im degree = (quarter ^^ nat (degree div 90)) im"

definition accept_all :: "'p image \<Rightarrow> bool" where
  "accept_all im = True"




section \<open>Properties of num\_rows\<close>

text \<open>
  Claim C10. With a configured limit \<open>n\<close>, \<open>num_rows\<close> is \<open>8 * n\<close> for degrees "all",
  \<open>4 * n\<close> for "rotate", \<open>2 * n\<close> for "flip" and \<open>n\<close> for every other degrees value;
  with no limit configured it is \<open>None\<close> whatever the degrees are.
\<close>

theorem num_rows_scaling:
  "num_rows None degrees = None \<and>
   num_rows (Some n) ''all'' = Some (8 * n) \<and>
   num_rows (Some n) ''rotate'' = Some (4 * n) \<and>
   num_rows (Some n) ''flip'' = Some (2 * n) \<and>
   (degrees \<noteq> ''all'' \<and> degrees \<noteq> ''rotate'' \<and> degrees \<noteq> ''flip''
      \<longrightarrow> num_rows (Some n) degrees = Some n)"
  by (simp add: num_rows_def)

theorem num_rows_scaling_witness:
  "num_rows None ''none'' = None \<and>
   num_rows (Some 5) ''all'' = Some 40 \<and>
   num_rows (Some 5) ''rotate'' = Some 20 \<and>
   num_rows (Some 5) ''flip'' = Some 10 \<and>
   ''none'' \<noteq> ''all'' \<and> ''none'' \<noteq> ''rotate'' \<and> ''none'' \<noteq> ''flip'' \<and>
   num_rows (Some 5) ''none'' = Some 5"
  using num_rows_scaling [of "''none''" 5] by simp

section \<open>Properties of make\_square\_with\_bb\<close>

lemma int_half_nonneg: "0 \<le> n \<Longrightarrow> int_half n = n div 2"
  by (simp add: int_half_def)

text \<open>
  Claim C5. The result of \<open>make_square_with_bb\<close> is a square of side
  \<open>max(min_size, width, height)\<close>; the original lies in it at the offsets
  \<open>(size - width) div 2\<close> and \<open>(size - height) div 2\<close> (floor division), inside the
  canvas, with every pixel unchanged; every other pixel of the canvas has the fill value.
\<close>

theorem make_square_with_bb_canonical:
  fixes im :: "'p image" and min_size :: int and fill_color :: 'p
  defines "sz \<equiv> max min_size (max (int (im_width im)) (int (im_height im)))"
  defines "ox \<equiv> (sz - int (im_width im)) div 2"
  defines "oy \<equiv> (sz - int (im_height im)) div 2"
  defines "r \<equiv> make_square_with_bb im min_size fill_color"
  shows "im_width r = nat sz \<and> im_height r = nat sz \<and>
         0 \<le> ox \<and> ox + int (im_width im) \<le> sz \<and>
         0 \<le> oy \<and> oy + int (im_height im) \<le> sz \<and>
         (\<forall>i j. i < im_width im \<and> j < im_height im \<longrightarrow>
            getpixel r (nat ox + i) (nat oy + j) = getpixel im i j) \<and>
         (\<forall>u v. \<not> (ox \<le> int u \<and> int u < ox + int (im_width im) \<and>
                   oy \<le> int v \<and> int v < oy + int (im_height im)) \<longrightarrow>
            getpixel r u v = fill_color)"
proof -
  have x: "0 \<le> sz - int (im_width im)" and y: "0 \<le> sz - int (im_height im)"
    by (simp_all add: sz_def)
  have r: "r = paste (Image_new sz fill_color) im (ox, oy)"
    using x y by (simp add: r_def make_square_with_bb_def Let_def int_half_nonneg
        sz_def [symmetric] ox_def oy_def)
  have dims: "im_width r = nat sz \<and> im_height r = nat sz"
    by (simp add: r paste_def Image_new_def)
  have fit: "0 \<le> ox \<and> ox + int (im_width im) \<le> sz \<and> 0 \<le> oy \<and> oy + int (im_height im) \<le> sz"
    using x y unfolding ox_def oy_def by linarith
  have inside: "getpixel r (nat ox + i) (nat oy + j) = getpixel im i j"
    if "i < im_width im" "j < im_height im" for i j
    using that fit by (simp add: r paste_def)
  have outside: "getpixel r u v = fill_color"
    if "\<not> (ox \<le> int u \<and> int u < ox + int (im_width im) \<and>
            oy \<le> int v \<and> int v < oy + int (im_height im))" for u v
    using that by (auto simp add: r paste_def Image_new_def)
  show ?thesis
    using dims fit inside outside by blast
qed

theorem make_square_with_bb_canonical_witness:
  "(1::nat) < im_width im0 \<and> (2::nat) < im_height im0 \<and>
   im_width (make_square_with_bb im0 6 0) = 6 \<and>
   im_height (make_square_with_bb im0 6 0) = 6 \<and>
   getpixel (make_square_with_bb im0 6 0) 3 3 = 21 \<and>
   getpixel (make_square_with_bb im0 6 0) 0 0 = 0"
proof -
  note t = make_square_with_bb_canonical [where im = im0 and min_size = 6 and fill_color = 0]
  have d: "im_width im0 = 2" "im_height im0 = 3" "getpixel im0 1 2 = 21"
    by (simp_all add: im0_def)
  from t have q: "i < 2 \<Longrightarrow> j < 3 \<Longrightarrow>
      getpixel (make_square_with_bb im0 6 0) (2 + i) (1 + j) = getpixel im0 i j" for i j
    unfolding d by simp
  from t have p: "\<not> (2 \<le> u \<and> u < 4 \<and> 1 \<le> v \<and> v < 4) \<Longrightarrow>
      getpixel (make_square_with_bb im0 6 0) u v = 0" for u v
    unfolding d by simp
  from t have s: "im_width (make_square_with_bb im0 6 0) = 6 \<and>
      im_height (make_square_with_bb im0 6 0) = 6"
    unfolding d by simp
  show ?thesis using d s q [of 1 2] p [of 0 0] by (simp add: numeral_3_eq_3)
qed

section \<open>Strings: decimal digits, separators, replacement\<close>


lemma of_char_digit_char: "d < 10 \<Longrightarrow> of_char (digit_char d) = 48 + d"
  by (simp add: digit_char_def)




lemma digit_char_code: "d < 10 \<Longrightarrow> 48 \<le> (of_char (digit_char d) :: nat)"
  by (simp only: of_char_digit_char)

lemma digits_codes: "c \<in> set (digits n) \<Longrightarrow> 48 \<le> (of_char c :: nat)"
proof (induction n rule: digits.induct)
  case (1 n)
  show ?case
  proof (cases "n < 10")
    case True
    with 1(2) have "c = digit_char n" by (simp add: digits.simps [of n])
    with True show ?thesis by (simp only: digit_char_code)
  next
    case False
    with 1(2) have "c \<in> set (digits (n div 10)) \<or> c = digit_char (n mod 10)"
      by (auto simp add: digits.simps [of n])
    then show ?thesis
    proof
      assume "c \<in> set (digits (n div 10))"
      with 1(1) [OF False] show ?thesis .
    next
      assume "c = digit_char (n mod 10)"
      moreover have "n mod 10 < 10" by simp
      ultimately show ?thesis by (simp only: digit_char_code)
    qed
  qed
qed









lemma split_from_chr_Nil: "split_from [c] cur [] = [cur]"
  by (subst split_from.simps) simp

lemma split_from_chr_Cons:
  "split_from [c] cur (x # xs) =
     (if x = c then cur # split_from [c] [] xs else split_from [c] (cur @ [x]) xs)"
  by (subst split_from.simps) simp


lemma split_from_nonempty: "split_from sep cur s \<noteq> []"
  by (induction sep cur s rule: split_from.induct) (subst split_from.simps, simp)

lemma split_from_hd: "hd (split_from [c] cur s) = cur @ takeWhile (\<lambda>x. x \<noteq> c) s"
  by (induction s arbitrary: cur) (simp_all add: split_from_chr_Nil split_from_chr_Cons)

section \<open>Properties of the path functions\<close>


lemma img_path_from_row_world_indep:
  "fst (img_path_from_row E w r i col x) = fst (img_path_from_row E w' r i col x)"
  by (simp add: img_path_from_row_def Let_def split: sum.splits)







text \<open>
  Claim C9, as the code has it. \<open>img_path_from_row\<close> never touches a file or the trace
  of calls, but it creates the category directory (the image root followed by the species
  with its spaces replaced) when nothing of that name exists; where it exists, or where
  the row has no species string, the file system is left as it was. The feature path
  functions \<open>dirpath_from_ft\<close>, \<open>l_dirpath_from_row\<close> and \<open>path_from_row_ft\<close> only
  compute strings.
\<close>

theorem img_path_from_row_effect:
  "files (snd (img_path_from_row E w r i col x)) = files w \<and>
   trace (snd (img_path_from_row E w r i col x)) = trace w \<and>
   (row_get r ''species'' = Inr (Str s) \<and>
    \<not> path_exists w (IMGDIR_PATH E @ str_replace (CHR '' '') (DIRNAME_DELIM E) s) \<longrightarrow>
      snd (img_path_from_row E w r i col x) =
        w\<lparr>dirs := insert (IMGDIR_PATH E @ str_replace (CHR '' '') (DIRNAME_DELIM E) s) (dirs w)\<rparr>) \<and>
   (row_get r ''species'' = Inr (Str s) \<and>
    path_exists w (IMGDIR_PATH E @ str_replace (CHR '' '') (DIRNAME_DELIM E) s) \<longrightarrow>
      snd (img_path_from_row E w r i col x) = w) \<and>
   ((\<forall>s'. row_get r ''species'' \<noteq> Inr (Str s')) \<longrightarrow>
      snd (img_path_from_row E w r i col x) = w)"
  by (auto simp: img_path_from_row_def Let_def cell_replace_def
      split: sum.splits cell.splits)

text \<open>
  On a file system without the category directory the path function creates it.
\<close>

theorem img_path_from_row_creates_directory:
  "dirs w0 = {} \<and>
   dirs (snd (img_path_from_row E0 w0 (mk_row ''http://x.org/a.jpg'' ''Pieris rapae'') 0
      ''identifier'' None)) = {''img/Pieris_rapae''}"
  by (simp add: img_path_from_row_def E0_def w0_def mk_row_def row_get_def row_pos_def
      cell_replace_def str_replace_def cell_split_def str_split_def item_last_def
      path_exists_def Let_def split: sum.splits)

theorem img_path_from_row_effect_witness:
  "row_get (mk_row ''http://x.org/a.jpg'' ''Pieris rapae'') ''species'' = Inr (Str ''Pieris rapae'') \<and>
   \<not> path_exists w0 (IMGDIR_PATH E0 @ str_replace (CHR '' '') (DIRNAME_DELIM E0) ''Pieris rapae'') \<and>
   snd (img_path_from_row E0 w0 (mk_row ''http://x.org/a.jpg'' ''Pieris rapae'') 0 ''identifier'' None)
     = w0\<lparr>dirs := {''img/Pieris_rapae''}\<rparr> \<and>
   path_exists (w0\<lparr>dirs := {''img/Pieris_rapae''}\<rparr>)
     (IMGDIR_PATH E0 @ str_replace (CHR '' '') (DIRNAME_DELIM E0) ''Pieris rapae'') \<and>
   snd (img_path_from_row E0 (w0\<lparr>dirs := {''img/Pieris_rapae''}\<rparr>)
     (mk_row ''http://x.org/a.jpg'' ''Pieris rapae'') 0 ''identifier'' None)
     = w0\<lparr>dirs := {''img/Pieris_rapae''}\<rparr> \<and>
   (\<forall>s'. row_get [] ''species'' \<noteq> Inr (Str s')) \<and>
   snd (img_path_from_row E0 w0 [] 0 ''identifier'' None) = w0"
proof -
  have h1: "row_get (mk_row ''http://x.org/a.jpg'' ''Pieris rapae'') ''species''
      = Inr (Str ''Pieris rapae'')"
    by (simp add: row_get_def mk_row_def)
  have h2: "IMGDIR_PATH E0 @ str_replace (CHR '' '') (DIRNAME_DELIM E0) ''Pieris rapae''
      = ''img/Pieris_rapae''"
    by (simp add: E0_def str_replace_def)
  have h3: "\<not> path_exists w0 ''img/Pieris_rapae''"
    "path_exists (w0\<lparr>dirs := {''img/Pieris_rapae''}\<rparr>) ''img/Pieris_rapae''"
    "dirs w0 = {}"
    by (simp_all add: path_exists_def w0_def)
  have h4: "\<forall>s'. row_get [] ''species'' \<noteq> Inr (Str s')"
    by (simp add: row_get_def)
  note a = img_path_from_row_effect [where E = E0 and w = w0
      and r = "mk_row ''http://x.org/a.jpg'' ''Pieris rapae''" and s = "''Pieris rapae''"
      and i = 0 and col = "''identifier''" and x = None]
  note b = img_path_from_row_effect [where E = E0 and w = "w0\<lparr>dirs := {''img/Pieris_rapae''}\<rparr>"
      and r = "mk_row ''http://x.org/a.jpg'' ''Pieris rapae''" and s = "''Pieris rapae''"
      and i = 0 and col = "''identifier''" and x = None]
  note c = img_path_from_row_effect [where E = E0 and w = w0 and r = "[]"
      and i = 0 and col = "''identifier''" and x = None]
  from a h1 h2 h3 have "snd (img_path_from_row E0 w0 (mk_row ''http://x.org/a.jpg'' ''Pieris rapae'') 0
      ''identifier'' None) = w0\<lparr>dirs := {''img/Pieris_rapae''}\<rparr>"
    by simp
  moreover from b h1 h2 h3 have "snd (img_path_from_row E0 (w0\<lparr>dirs := {''img/Pieris_rapae''}\<rparr>)
      (mk_row ''http://x.org/a.jpg'' ''Pieris rapae'') 0 ''identifier'' None)
      = w0\<lparr>dirs := {''img/Pieris_rapae''}\<rparr>"
    by simp
  moreover from c h4 have "snd (img_path_from_row E0 w0 [] 0 ''identifier'' None) = w0"
    by simp
  ultimately show ?thesis using h1 h2 h3 h4 by simp
qed

section \<open>Properties of one fetch unit\<close>

lemma img_path_from_row_frame:
  "files (snd (img_path_from_row E w r i col x)) = files w"
  "trace (snd (img_path_from_row E w r i col x)) = trace w"
  "dirs w \<subseteq> dirs (snd (img_path_from_row E w r i col x))"
  by (auto simp: img_path_from_row_def Let_def split: sum.splits)

lemma img_path_from_row_exists_mono:
  "path_exists w p \<Longrightarrow> path_exists (snd (img_path_from_row E w r i col x)) p"
  using img_path_from_row_frame [where E = E and w = w and r = r and i = i and col = col and x = x]
  by (auto simp: path_exists_def)

lemma except_clauses_NaN: "except_clauses e = NaN"
  by (cases e) (simp_all add: except_clauses_def)

lemma save_img_unfold:
  assumes "img_path_from_row E w r i ''identifier'' None = (Inr p, w1)"
  shows "save_img E col f s w r i =
     (if path_exists w1 p then (Inr (Str p), w1)
      else case row_get r col of
        Inl e \<Rightarrow> (Inr NaN, w1)
      | Inr url \<Rightarrow>
          (case f of
             Inl e \<Rightarrow> (Inr NaN, w1\<lparr>trace := trace w1 @ [NetGet url]\<rparr>)
           | Inr img \<Rightarrow>
               (case s of
                  Some e \<Rightarrow> (Inr NaN, w1\<lparr>trace := trace w1 @ [NetGet url]\<rparr>)
                | None \<Rightarrow> (Inr (Str p),
                    w1\<lparr>trace := trace w1 @ [NetGet url],
                       files := (files w1)(p \<mapsto> resize416 E (make_square_with_bb img 256 (fill_default E)))\<rparr>))))"
  by (simp add: save_img_def assms Let_def except_clauses_NaN split: sum.splits option.splits)

lemma save_img_raises:
  assumes "fst (img_path_from_row E w r i ''identifier'' None) = Inl e"
  shows "save_img E col f s w r i = (Inl e, snd (img_path_from_row E w r i ''identifier'' None))"
  using assms by (cases "img_path_from_row E w r i ''identifier'' None") (simp add: save_img_def)

lemma save_img_cached:
  assumes "fst (img_path_from_row E w r i ''identifier'' None) = Inr p" and "path_exists w p"
  shows "save_img E col f s w r i =
     (Inr (Str p), snd (img_path_from_row E w r i ''identifier'' None))"
proof -
  obtain w1 where w1: "img_path_from_row E w r i ''identifier'' None = (Inr p, w1)"
    using assms(1) by (cases "img_path_from_row E w r i ''identifier'' None") simp
  with assms(2) have "path_exists w1 p"
    using img_path_from_row_exists_mono [of w p E r i "''identifier''" None] by simp
  with w1 show ?thesis by (simp add: save_img_unfold)
qed

lemma save_img_frame:
  assumes "save_img E col f s w r i = (res, w')"
  shows "dirs w \<subseteq> dirs w'"
    and "files w q \<noteq> None \<Longrightarrow> files w' q \<noteq> None"
    and "\<exists>es. trace w' = trace w @ es \<and> (\<forall>e \<in> set es. \<exists>u. e = NetGet u)"
proof -
  obtain r1 w1 where w1: "img_path_from_row E w r i ''identifier'' None = (r1, w1)"
    by (cases "img_path_from_row E w r i ''identifier'' None")
  then have fr: "files w1 = files w" "trace w1 = trace w" "dirs w \<subseteq> dirs w1"
    using img_path_from_row_frame [where E = E and w = w and r = r and i = i
        and col = "''identifier''" and x = None] by simp_all
  show "dirs w \<subseteq> dirs w'"
  proof (cases r1)
    case (Inl e)
    with w1 assms fr show ?thesis by (simp add: save_img_def)
  next
    case (Inr p)
    with w1 assms fr show ?thesis
      by (auto simp: save_img_unfold split: if_splits sum.splits option.splits)
  qed
  show "files w' q \<noteq> None" if "files w q \<noteq> None"
  proof (cases r1)
    case (Inl e)
    with w1 assms fr that show ?thesis by (simp add: save_img_def)
  next
    case (Inr p)
    with w1 assms fr that show ?thesis
      by (auto simp: save_img_unfold split: if_splits sum.splits option.splits)
  qed
  show "\<exists>es. trace w' = trace w @ es \<and> (\<forall>e \<in> set es. \<exists>u. e = NetGet u)"
  proof (cases r1)
    case (Inl e)
    with w1 assms fr show ?thesis by (simp add: save_img_def)
  next
    case (Inr p)
    with w1 assms fr show ?thesis
      by (auto simp: save_img_unfold split: if_splits sum.splits option.splits)
  qed
qed

lemma save_img_exists_mono:
  assumes "save_img E col f s w r i = (res, w')" and "path_exists w q"
  shows "path_exists w' q"
  using save_img_frame(1) [OF assms(1)] save_img_frame(2) [OF assms(1), of q] assms(2)
  by (auto simp: path_exists_def)

lemma save_img_result:
  assumes "fst (img_path_from_row E w r i ''identifier'' None) = Inr p"
    and "save_img E col f s w r i = (res, w')"
  shows "res = Inr NaN \<or> res = Inr (Str p)"
    and "res = Inr (Str p) \<Longrightarrow> path_exists w' p"
    and "res = Inr NaN \<Longrightarrow> (\<exists>e. row_get r col = Inl e) \<or> (\<exists>e. f = Inl e) \<or> (\<exists>e. s = Some e)"
proof -
  obtain w1 where w1: "img_path_from_row E w r i ''identifier'' None = (Inr p, w1)"
    using assms(1) by (cases "img_path_from_row E w r i ''identifier'' None") simp
  from w1 assms(2) show "res = Inr NaN \<or> res = Inr (Str p)"
    by (auto simp: save_img_unfold split: if_splits sum.splits option.splits)
  from w1 assms(2) show "path_exists w' p" if "res = Inr (Str p)"
    using that
    by (auto simp: save_img_unfold path_exists_def split: if_splits sum.splits option.splits)
  from w1 assms(2)
  show "(\<exists>e. row_get r col = Inl e) \<or> (\<exists>e. f = Inl e) \<or> (\<exists>e. s = Some e)" if "res = Inr NaN"
    using that
    by (auto simp: save_img_unfold split: if_splits sum.splits option.splits)
qed

section \<open>Properties of the pool and of the loop over the futures\<close>

lemma run_units_append:
  "run_units E col net disk df (xs @ ys) st =
     run_units E col net disk df ys (run_units E col net disk df xs st)"
  by (induction E col net disk df xs st rule: run_units.induct) (auto split: prod.splits)

lemma run_units_length:
  "length (fst (run_units E col net disk df ks (futs, w))) = length futs"
  by (induction E col net disk df ks "(futs, w)" arbitrary: futs w rule: run_units.induct)
    (auto split: prod.splits)

lemma run_units_untouched:
  "k \<notin> set ks \<Longrightarrow> fst (run_units E col net disk df ks (futs, w)) ! k = futs ! k"
  by (induction E col net disk df ks "(futs, w)" arbitrary: futs w rule: run_units.induct)
    (auto split: prod.splits)

lemma run_units_exists_mono:
  "path_exists w q \<Longrightarrow> path_exists (snd (run_units E col net disk df ks (futs, w))) q"
proof (induction E col net disk df ks "(futs, w)" arbitrary: futs w rule: run_units.induct)
  case (1 E col net disk df futs w)
  then show ?case by simp
next
  case (2 E col net disk df k ks futs w)
  show ?case
  proof (cases "k < length df")
    case True
    obtain index r where d: "df ! k = (index, r)" by (cases "df ! k")
    obtain res w' where s: "save_img E col (net k) (disk k) w r index = (res, w')"
      by (cases "save_img E col (net k) (disk k) w r index")
    from s "2.prems" have "path_exists w' q" by (rule save_img_exists_mono)
    with True d s "2.hyps"(1) [OF True d [symmetric] s [symmetric]] show ?thesis by simp
  next
    case False
    with 2 show ?thesis by simp
  qed
qed


lemma run_units_nth:
  assumes "distinct sched" and "j < length sched" and "sched ! j < length df"
    and "length futs = length df"
  shows "fst (run_units E col net disk df sched (futs, w)) ! (sched ! j) =
     Some (fst (save_img E col (net (sched ! j)) (disk (sched ! j))
       (snd (run_units E col net disk df (take j sched) (futs, w)))
       (snd (df ! (sched ! j))) (fst (df ! (sched ! j)))))"
proof -
  define k where "k = sched ! j"
  obtain futs1 w1 where st1: "run_units E col net disk df (take j sched) (futs, w) = (futs1, w1)"
    by (cases "run_units E col net disk df (take j sched) (futs, w)")
  obtain index r where d: "df ! k = (index, r)" by (cases "df ! k")
  obtain res w2 where s: "save_img E col (net k) (disk k) w1 r index = (res, w2)"
    by (cases "save_img E col (net k) (disk k) w1 r index")
  have len1: "length futs1 = length df"
    using run_units_length [where E = E and col = col and net = net and disk = disk and df = df
        and ks = "take j sched" and futs = futs and w = w] st1 assms(4) by simp
  have split: "sched = take j sched @ k # drop (Suc j) sched"
    unfolding k_def using assms(2) by (rule id_take_nth_drop)
  have notin: "k \<notin> set (drop (Suc j) sched)"
    using assms(1) split by (metis distinct_append distinct.simps(2))
  have "run_units E col net disk df sched (futs, w) =
      run_units E col net disk df (drop (Suc j) sched) (futs1[k := Some res], w2)"
    using assms(3) d s st1
    by (subst split) (simp add: run_units_append k_def [symmetric])
  then have "fst (run_units E col net disk df sched (futs, w)) ! k = futs1[k := Some res] ! k"
    using notin by (simp add: run_units_untouched)
  also have "\<dots> = Some res"
    using len1 assms(3) by (simp add: k_def)
  finally show ?thesis
    using st1 s d by (simp add: k_def [symmetric])
qed

lemma write_back_length:
  "write_back i fts paths = Some (Inr ps) \<Longrightarrow> length ps = length paths"
  by (induction fts arbitrary: i paths) (auto split: option.splits sum.splits)

lemma write_back_before:
  "write_back i fts paths = Some (Inr ps) \<Longrightarrow> m < i \<Longrightarrow> ps ! m = paths ! m"
proof (induction fts arbitrary: i paths)
  case Nil
  then show ?case by simp
next
  case (Cons ft fts)
  from Cons.prems(1) obtain c where
    c: "ft = Some (Inr c)" "write_back (Suc i) fts (paths[i := c]) = Some (Inr ps)"
    by (auto split: option.splits sum.splits)
  from Cons.IH [OF c(2)] Cons.prems(2) show ?case by simp
qed

lemma write_back_nth:
  "write_back i fts paths = Some (Inr ps) \<Longrightarrow> k < length fts \<Longrightarrow> i + k < length paths
     \<Longrightarrow> fts ! k = Some (Inr (ps ! (i + k)))"
proof (induction fts arbitrary: i paths k)
  case Nil
  then show ?case by simp
next
  case (Cons ft fts)
  from Cons.prems(1) obtain c where
    c: "ft = Some (Inr c)" "write_back (Suc i) fts (paths[i := c]) = Some (Inr ps)"
    by (auto split: option.splits sum.splits)
  show ?case
  proof (cases k)
    case 0
    from write_back_before [OF c(2), of i] Cons.prems(3) have "ps ! i = c" by simp
    with 0 c show ?thesis by simp
  next
    case (Suc k')
    with Cons.prems Cons.IH [OF c(2), of k'] show ?thesis by simp
  qed
qed

lemma write_back_returns:
  "\<forall>ft \<in> set fts. \<exists>c. ft = Some (Inr c) \<Longrightarrow> \<exists>ps. write_back i fts paths = Some (Inr ps)"
  by (induction fts arbitrary: i paths) auto


lemma write_back_Inl:
  "write_back i fts paths = Some (Inl e) \<Longrightarrow> Some (Inl e) \<in> set fts"
  by (induction fts arbitrary: i paths) (auto split: option.splits sum.splits)

lemma run_units_unit:
  assumes "distinct sched" and "j < length sched" and "sched ! j < length df"
    and "length futs = length df"
  shows "\<exists>res wb.
     save_img E col (net (sched ! j)) (disk (sched ! j))
       (snd (run_units E col net disk df (take j sched) (futs, w)))
       (snd (df ! (sched ! j))) (fst (df ! (sched ! j))) = (res, wb) \<and>
     fst (run_units E col net disk df sched (futs, w)) ! (sched ! j) = Some res \<and>
     (\<forall>q. path_exists wb q \<longrightarrow> path_exists (snd (run_units E col net disk df sched (futs, w))) q)"
proof -
  define k where "k = sched ! j"
  obtain futs1 w1 where st1: "run_units E col net disk df (take j sched) (futs, w) = (futs1, w1)"
    by (cases "run_units E col net disk df (take j sched) (futs, w)")
  obtain index r where d: "df ! k = (index, r)" by (cases "df ! k")
  obtain res w2 where s: "save_img E col (net k) (disk k) w1 r index = (res, w2)"
    by (cases "save_img E col (net k) (disk k) w1 r index")
  have split: "sched = take j sched @ k # drop (Suc j) sched"
    unfolding k_def using assms(2) by (rule id_take_nth_drop)
  have run: "run_units E col net disk df sched (futs, w) =
      run_units E col net disk df (drop (Suc j) sched) (futs1[k := Some res], w2)"
    using assms(3) d s st1
    by (subst split) (simp add: run_units_append k_def [symmetric])
  have "fst (run_units E col net disk df sched (futs, w)) ! k = Some res"
    using run_units_nth [OF assms, of E col net disk w] st1 s d by (simp add: k_def [symmetric])
  moreover have "path_exists (snd (run_units E col net disk df sched (futs, w))) q"
    if "path_exists w2 q" for q
    unfolding run using that by (rule run_units_exists_mono)
  ultimately show ?thesis
    using st1 s d by (simp add: k_def [symmetric])
qed

lemma schedule_covers:
  assumes "set sched = {..<n}" and "k < n"
  shows "\<exists>j < length sched. sched ! j = k"
  using assms by (metis in_set_conv_nth lessThan_iff)


section \<open>Properties of the table operations\<close>






section \<open>Properties of fetch\_images\<close>

lemma fetch_paths_unfold:
  "fetch_paths E col net disk sched w df =
     (write_back 0 (fst (run_units E col net disk df sched (replicate (length df) None, w)))
        (replicate (length df) NaN),
      snd (run_units E col net disk df sched (replicate (length df) None, w)))"
  by (simp add: fetch_paths_def Let_def split: prod.splits)


lemma fetch_paths_nth:
  assumes "fst (fetch_paths E col net disk sched w df) = Some (Inr paths)"
  shows "length paths = length df"
    and "k < length df \<Longrightarrow>
      fst (run_units E col net disk df sched (replicate (length df) None, w)) ! k
        = Some (Inr (paths ! k))"
proof -
  let ?futs = "fst (run_units E col net disk df sched (replicate (length df) None, w))"
  from assms have wb: "write_back 0 ?futs (replicate (length df) NaN) = Some (Inr paths)"
    by (simp add: fetch_paths_unfold)
  have len: "length ?futs = length df"
    by (simp add: run_units_length)
  from write_back_length [OF wb] show "length paths = length df" by simp
  show "?futs ! k = Some (Inr (paths ! k))" if "k < length df"
    using write_back_nth [OF wb, of k] that len by simp
qed


lemma run_units_cached:
  assumes "\<forall>k < length df.
      fst (img_path_from_row E w (snd (df ! k)) (fst (df ! k)) ''identifier'' None) = Inr (ps k) \<and>
      path_exists w (ps k)"
  shows "trace (snd (run_units E col net disk df ks (futs, w))) = trace w \<and>
         files (snd (run_units E col net disk df ks (futs, w))) = files w"
  using assms
proof (induction ks arbitrary: futs w)
  case Nil
  then show ?case by simp
next
  case (Cons k ks)
  show ?case
  proof (cases "k < length df")
    case True
    obtain index r where d: "df ! k = (index, r)" by (cases "df ! k")
    let ?w' = "snd (img_path_from_row E w r index ''identifier'' None)"
    from Cons.prems True d
    have p: "fst (img_path_from_row E w r index ''identifier'' None) = Inr (ps k)"
      and e: "path_exists w (ps k)"
      by auto
    have s: "save_img E col (net k) (disk k) w r index = (Inr (Str (ps k)), ?w')"
      using p e by (rule save_img_cached)
    have fr: "trace ?w' = trace w" "files ?w' = files w"
      by (simp_all add: img_path_from_row_frame)
    have "\<forall>k < length df.
        fst (img_path_from_row E ?w' (snd (df ! k)) (fst (df ! k)) ''identifier'' None) = Inr (ps k) \<and>
        path_exists ?w' (ps k)"
      using Cons.prems img_path_from_row_world_indep [of E ?w' _ _ "''identifier''" None w]
      by (simp add: img_path_from_row_exists_mono)
    from Cons.IH [OF this, of "futs[k := Some (Inr (Str (ps k)))]"] True d s fr
    show ?thesis by simp
  next
    case False
    with Cons.IH [OF Cons.prems, of futs] show ?thesis by simp
  qed
qed

lemma fetch_cached_unit_and_batch:
  "(fst (img_path_from_row E w r i ''identifier'' None) = Inr p \<and> path_exists w p \<longrightarrow>
      fst (save_img E col f s w r i) = Inr (Str p) \<and>
      trace (snd (save_img E col f s w r i)) = trace w \<and>
      files (snd (save_img E col f s w r i)) = files w) \<and>
   (distinct sched \<and> set sched = {..<length df} \<and>
    (\<forall>k < length df.
       fst (img_path_from_row E w (snd (df ! k)) (fst (df ! k)) ''identifier'' None) = Inr (ps k) \<and>
       path_exists w (ps k)) \<longrightarrow>
      fst (fetch_paths E col net disk sched w df) = Some (Inr (map (\<lambda>k. Str (ps k)) [0..<length df])) \<and>
      trace (snd (fetch_paths E col net disk sched w df)) = trace w \<and>
      files (snd (fetch_paths E col net disk sched w df)) = files w)"
proof (intro conjI impI)
  assume a: "fst (img_path_from_row E w r i ''identifier'' None) = Inr p \<and> path_exists w p"
  then have s: "save_img E col f s w r i =
      (Inr (Str p), snd (img_path_from_row E w r i ''identifier'' None))"
    by (intro save_img_cached) simp_all
  show "fst (save_img E col f s w r i) = Inr (Str p)"
    by (simp add: s)
  show "trace (snd (save_img E col f s w r i)) = trace w"
    by (simp add: s img_path_from_row_frame)
  show "files (snd (save_img E col f s w r i)) = files w"
    by (simp add: s img_path_from_row_frame)
next
  assume a: "distinct sched \<and> set sched = {..<length df} \<and>
    (\<forall>k < length df.
       fst (img_path_from_row E w (snd (df ! k)) (fst (df ! k)) ''identifier'' None) = Inr (ps k) \<and>
       path_exists w (ps k))"
  let ?init = "(replicate (length df) None :: (exn + cell) option list, w)"
  let ?futs = "fst (run_units E col net disk df sched ?init)"
  from a have cached: "\<forall>k < length df.
       fst (img_path_from_row E w (snd (df ! k)) (fst (df ! k)) ''identifier'' None) = Inr (ps k) \<and>
       path_exists w (ps k)"
    by simp
  note fr = run_units_cached [OF cached, of col net disk]
  show "trace (snd (fetch_paths E col net disk sched w df)) = trace w"
    by (simp add: fetch_paths_unfold fr)
  show "files (snd (fetch_paths E col net disk sched w df)) = files w"
    by (simp add: fetch_paths_unfold fr)
  have len: "length ?futs = length df"
    by (simp add: run_units_length)
  have fut: "?futs ! k = Some (Inr (Str (ps k)))" if k: "k < length df" for k
  proof -
    from a k obtain j where j: "j < length sched" "sched ! j = k"
      using schedule_covers [of sched "length df" k] by blast
    let ?wk = "snd (run_units E col net disk df (take j sched) ?init)"
    have "?futs ! (sched ! j) =
        Some (fst (save_img E col (net (sched ! j)) (disk (sched ! j)) ?wk
          (snd (df ! (sched ! j))) (fst (df ! (sched ! j)))))"
      using a j k by (intro run_units_nth) simp_all
    moreover have "fst (img_path_from_row E ?wk (snd (df ! k)) (fst (df ! k)) ''identifier'' None)
        = Inr (ps k)"
      using cached k img_path_from_row_world_indep [of E ?wk _ _ "''identifier''" None w]
      by simp
    moreover have "path_exists ?wk (ps k)"
      using cached k by (simp add: run_units_exists_mono)
    ultimately show ?thesis
      using j(2) by (simp add: save_img_cached)
  qed
  then have "\<forall>ft \<in> set ?futs. \<exists>c. ft = Some (Inr c)"
    using len by (auto simp: in_set_conv_nth)
  then obtain paths where wb: "write_back 0 ?futs (replicate (length df) NaN) = Some (Inr paths)"
    using write_back_returns by blast
  have "paths = map (\<lambda>k. Str (ps k)) [0..<length df]"
  proof (rule nth_equalityI)
    show "length paths = length (map (\<lambda>k. Str (ps k)) [0..<length df])"
      using write_back_length [OF wb] by simp
    fix k
    assume "k < length paths"
    then have k: "k < length df" using write_back_length [OF wb] by simp
    from write_back_nth [OF wb, of k] k len fut [OF k]
    show "paths ! k = map (\<lambda>k. Str (ps k)) [0..<length df] ! k" by simp
  qed
  with wb show "fst (fetch_paths E col net disk sched w df)
      = Some (Inr (map (\<lambda>k. Str (ps k)) [0..<length df]))"
    by (simp add: fetch_paths_unfold)
qed

lemma save_img_Inr_path:
  assumes "save_img E col f s w r i = (Inr c, w')"
  shows "\<exists>p. fst (img_path_from_row E w r i ''identifier'' None) = Inr p"
proof (cases "fst (img_path_from_row E w r i ''identifier'' None)")
  case (Inl e)
  from save_img_raises [OF Inl, of col f s] assms show ?thesis by simp
next
  case (Inr p)
  then show ?thesis by simp
qed

lemma fetch_paths_entry:
  assumes "distinct sched" and "set sched = {..<length df}"
    and "fst (fetch_paths E col net disk sched w df) = Some (Inr paths)"
    and "k < length df"
  shows "\<exists>p. fst (img_path_from_row E w (snd (df ! k)) (fst (df ! k)) ''identifier'' None) = Inr p \<and>
     (paths ! k = NaN \<or> paths ! k = Str p) \<and>
     (paths ! k = Str p \<longrightarrow> path_exists (snd (fetch_paths E col net disk sched w df)) p) \<and>
     (paths ! k = NaN \<longrightarrow>
        (\<exists>e. row_get (snd (df ! k)) col = Inl e) \<or> (\<exists>e. net k = Inl e) \<or> (\<exists>e. disk k = Some e))"
proof -
  let ?init = "(replicate (length df) None :: (exn + cell) option list, w)"
  from schedule_covers [OF assms(2,4)] obtain j where j: "j < length sched" "sched ! j = k"
    by blast
  let ?wk = "snd (run_units E col net disk df (take j sched) ?init)"
  from run_units_unit [OF assms(1) j(1), of df "fst ?init" E col net disk w] j(2) assms(4)
  obtain res wb where u:
    "save_img E col (net k) (disk k) ?wk (snd (df ! k)) (fst (df ! k)) = (res, wb)"
    "fst (run_units E col net disk df sched ?init) ! k = Some res"
    "\<forall>q. path_exists wb q \<longrightarrow> path_exists (snd (run_units E col net disk df sched ?init)) q"
    by auto
  from fetch_paths_nth(2) [OF assms(3,4)] u(2) have res: "res = Inr (paths ! k)" by simp
  from save_img_Inr_path [OF u(1) [unfolded res]] obtain p where
    pk: "fst (img_path_from_row E ?wk (snd (df ! k)) (fst (df ! k)) ''identifier'' None) = Inr p"
    by blast
  then have pw: "fst (img_path_from_row E w (snd (df ! k)) (fst (df ! k)) ''identifier'' None) = Inr p"
    using img_path_from_row_world_indep [of E ?wk "snd (df ! k)" "fst (df ! k)" "''identifier''" None w]
    by simp
  note r = save_img_result [OF pk u(1)]
  have 1: "paths ! k = NaN \<or> paths ! k = Str p"
    using r(1) res by simp
  have 2: "path_exists (snd (fetch_paths E col net disk sched w df)) p" if "paths ! k = Str p"
    using r(2) res that u(3) by (simp add: fetch_paths_unfold)
  have 3: "(\<exists>e. row_get (snd (df ! k)) col = Inl e) \<or> (\<exists>e. net k = Inl e) \<or> (\<exists>e. disk k = Some e)"
    if "paths ! k = NaN"
    using r(3) res that by simp
  from pw 1 2 3 show ?thesis by blast
qed



lemma fetch_paths_cached:
  assumes "distinct sched" and "set sched = {..<length df}"
    and "\<forall>k < length df.
       fst (img_path_from_row E w (snd (df ! k)) (fst (df ! k)) ''identifier'' None) = Inr (ps k) \<and>
       path_exists w (ps k)"
  shows "fst (fetch_paths E col net disk sched w df) = Some (Inr (map (\<lambda>k. Str (ps k)) [0..<length df]))"
    and "trace (snd (fetch_paths E col net disk sched w df)) = trace w"
    and "files (snd (fetch_paths E col net disk sched w df)) = files w"
  using fetch_cached_unit_and_batch [of E w _ _ _ _ _ _ sched df ps net disk] assms by blast+

lemma fetch_paths_second_run:
  assumes "distinct sched" and "set sched = {..<length df}"
    and "distinct sched'" and "set sched' = {..<length df}"
    and "fst (fetch_paths E col net disk sched w df) = Some (Inr paths)"
    and "NaN \<notin> set paths"
  shows "fst (fetch_paths E col net' disk' sched' (snd (fetch_paths E col net disk sched w df)) df)
      = Some (Inr paths)"
    and "trace (snd (fetch_paths E col net' disk' sched' (snd (fetch_paths E col net disk sched w df)) df))
      = trace (snd (fetch_paths E col net disk sched w df))"
    and "files (snd (fetch_paths E col net' disk' sched' (snd (fetch_paths E col net disk sched w df)) df))
      = files (snd (fetch_paths E col net disk sched w df))"
proof -
  let ?w1 = "snd (fetch_paths E col net disk sched w df)"
  have len: "length paths = length df"
    by (rule fetch_paths_nth(1) [OF assms(5)])
  have "\<exists>p. fst (img_path_from_row E ?w1 (snd (df ! k)) (fst (df ! k)) ''identifier'' None) = Inr p \<and>
      path_exists ?w1 p \<and> paths ! k = Str p" if k: "k < length df" for k
  proof -
    from fetch_paths_entry [OF assms(1,2,5) k] obtain p where
      p: "fst (img_path_from_row E w (snd (df ! k)) (fst (df ! k)) ''identifier'' None) = Inr p"
        "paths ! k = NaN \<or> paths ! k = Str p"
        "paths ! k = Str p \<longrightarrow> path_exists ?w1 p"
      by blast
    from assms(6) k len have "paths ! k \<noteq> NaN" by (metis nth_mem)
    with p have "paths ! k = Str p" "path_exists ?w1 p" by auto
    moreover from p(1) have
      "fst (img_path_from_row E ?w1 (snd (df ! k)) (fst (df ! k)) ''identifier'' None) = Inr p"
      using img_path_from_row_world_indep [of E ?w1 "snd (df ! k)" "fst (df ! k)" "''identifier''" None w]
      by simp
    ultimately show ?thesis by blast
  qed
  then have "\<forall>k. \<exists>p. k < length df \<longrightarrow>
      fst (img_path_from_row E ?w1 (snd (df ! k)) (fst (df ! k)) ''identifier'' None) = Inr p \<and>
      path_exists ?w1 p \<and> paths ! k = Str p"
    by blast
  then obtain ps where ps: "\<forall>k < length df.
      fst (img_path_from_row E ?w1 (snd (df ! k)) (fst (df ! k)) ''identifier'' None) = Inr (ps k) \<and>
      path_exists ?w1 (ps k) \<and> paths ! k = Str (ps k)"
    by metis
  then have c: "\<forall>k < length df.
      fst (img_path_from_row E ?w1 (snd (df ! k)) (fst (df ! k)) ''identifier'' None) = Inr (ps k) \<and>
      path_exists ?w1 (ps k)"
    by blast
  have "paths = map (\<lambda>k. Str (ps k)) [0..<length df]"
    using len ps by (intro nth_equalityI) simp_all
  with fetch_paths_cached(1) [OF assms(3,4) c, of col net' disk']
  show "fst (fetch_paths E col net' disk' sched' ?w1 df) = Some (Inr paths)" by simp
  from fetch_paths_cached(2) [OF assms(3,4) c, of col net' disk']
  show "trace (snd (fetch_paths E col net' disk' sched' ?w1 df)) = trace ?w1" .
  from fetch_paths_cached(3) [OF assms(3,4) c, of col net' disk']
  show "files (snd (fetch_paths E col net' disk' sched' ?w1 df)) = files ?w1" .
qed

text \<open>
  Claim C1. A unit whose computed path exists returns that path, makes no request and
  writes no file. Hence a run of the pooled fetch over records whose paths all exist
  returns, for every order of completion, exactly these paths in row order, adds no call
  to the trace and leaves the files as they are. In particular, after a run that has
  returned a path for every record, a second run on the same table (with any order of
  completion, and whatever the network would do) returns the same path list, makes no
  request and writes no file.
\<close>

theorem fetch_cached_idempotent:
  "(fst (img_path_from_row E w r i ''identifier'' None) = Inr p \<and> path_exists w p \<longrightarrow>
      fst (save_img E col f s w r i) = Inr (Str p) \<and>
      trace (snd (save_img E col f s w r i)) = trace w \<and>
      files (snd (save_img E col f s w r i)) = files w) \<and>
   (distinct sched \<and> set sched = {..<length df} \<and>
    (\<forall>k < length df.
       fst (img_path_from_row E w (snd (df ! k)) (fst (df ! k)) ''identifier'' None) = Inr (ps k) \<and>
       path_exists w (ps k)) \<longrightarrow>
      fst (fetch_paths E col net disk sched w df) = Some (Inr (map (\<lambda>k. Str (ps k)) [0..<length df])) \<and>
      trace (snd (fetch_paths E col net disk sched w df)) = trace w \<and>
      files (snd (fetch_paths E col net disk sched w df)) = files w) \<and>
   (distinct sched \<and> set sched = {..<length df} \<and>
    distinct sched' \<and> set sched' = {..<length df} \<and>
    fst (fetch_paths E col net disk sched w df) = Some (Inr paths) \<and> NaN \<notin> set paths \<longrightarrow>
      fst (fetch_paths E col net' disk' sched' (snd (fetch_paths E col net disk sched w df)) df)
        = Some (Inr paths) \<and>
      trace (snd (fetch_paths E col net' disk' sched' (snd (fetch_paths E col net disk sched w df)) df))
        = trace (snd (fetch_paths E col net disk sched w df)) \<and>
      files (snd (fetch_paths E col net' disk' sched' (snd (fetch_paths E col net disk sched w df)) df))
        = files (snd (fetch_paths E col net disk sched w df)))"
  using fetch_cached_unit_and_batch [of E w r i p col f s sched df ps net disk]
    fetch_paths_second_run [of sched df sched' E col net disk w paths net' disk']
  by blast




section \<open>The fetch on three records\<close>


theorem fetch_cached_idempotent_witness:
  "fst (img_path_from_row E0 w_cached (mk_row ''http://x.org/b.jpg'' ''Pieris rapae'') 1
      ''identifier'' None) = Inr ''img/Pieris_rapae/1_0.npy'' \<and>
   path_exists w_cached ''img/Pieris_rapae/1_0.npy'' \<and>
   fst (save_img E0 ''identifier'' (Inl Timeout) None w_cached
      (mk_row ''http://x.org/b.jpg'' ''Pieris rapae'') 1) = Inr (Str ''img/Pieris_rapae/1_0.npy'') \<and>
   trace (snd (save_img E0 ''identifier'' (Inl Timeout) None w_cached
      (mk_row ''http://x.org/b.jpg'' ''Pieris rapae'') 1)) = trace w_cached \<and>
   distinct [2, 0, 1 :: nat] \<and> set [2, 0, 1] = {..<length df3} \<and>
   fst (img_path_from_row E0 w_cached (snd (df3 ! 0)) (fst (df3 ! 0)) ''identifier'' None)
     = Inr ''img/Pieris_rapae/0_0.npy'' \<and>
   path_exists w_cached ''img/Pieris_rapae/0_0.npy'' \<and>
   fst (img_path_from_row E0 w_cached (snd (df3 ! 1)) (fst (df3 ! 1)) ''identifier'' None)
     = Inr ''img/Pieris_rapae/1_0.npy'' \<and>
   fst (img_path_from_row E0 w_cached (snd (df3 ! 2)) (fst (df3 ! 2)) ''identifier'' None)
     = Inr ''img/Pieris_napi/2_0.npy'' \<and>
   path_exists w_cached ''img/Pieris_napi/2_0.npy'' \<and>
   fst (fetch_paths E0 ''identifier'' net_1_timeout disk_ok [2, 0, 1] w_cached df3)
     = Some (Inr [Str ''img/Pieris_rapae/0_0.npy'', Str ''img/Pieris_rapae/1_0.npy'',
                  Str ''img/Pieris_napi/2_0.npy'']) \<and>
   trace (snd (fetch_paths E0 ''identifier'' net_1_timeout disk_ok [2, 0, 1] w_cached df3)) = [] \<and>
   distinct [0, 1, 2 :: nat] \<and> set [0, 1, 2] = {..<length df3} \<and>
   fst (fetch_paths E0 ''identifier'' net_ok disk_ok [2, 0, 1] w0 df3)
     = Some (Inr [Str ''img/Pieris_rapae/0_0.npy'', Str ''img/Pieris_rapae/1_0.npy'',
                  Str ''img/Pieris_napi/2_0.npy'']) \<and>
   NaN \<notin> set [Str ''img/Pieris_rapae/0_0.npy'', Str ''img/Pieris_rapae/1_0.npy'',
                  Str ''img/Pieris_napi/2_0.npy''] \<and>
   fst (fetch_paths E0 ''identifier'' net_1_timeout disk_ok [0, 1, 2]
      (snd (fetch_paths E0 ''identifier'' net_ok disk_ok [2, 0, 1] w0 df3)) df3)
     = Some (Inr [Str ''img/Pieris_rapae/0_0.npy'', Str ''img/Pieris_rapae/1_0.npy'',
                  Str ''img/Pieris_napi/2_0.npy'']) \<and>
   trace (snd (fetch_paths E0 ''identifier'' net_1_timeout disk_ok [0, 1, 2]
      (snd (fetch_paths E0 ''identifier'' net_ok disk_ok [2, 0, 1] w0 df3)) df3))
     = trace (snd (fetch_paths E0 ''identifier'' net_ok disk_ok [2, 0, 1] w0 df3))"
proof -
  let ?ps = "\<lambda>k. [''img/Pieris_rapae/0_0.npy'', ''img/Pieris_rapae/1_0.npy'',
                   ''img/Pieris_napi/2_0.npy''] ! k"
  have u: "fst (img_path_from_row E0 w_cached (mk_row ''http://x.org/b.jpg'' ''Pieris rapae'') 1
      ''identifier'' None) = Inr ''img/Pieris_rapae/1_0.npy''"
    by code_simp
  have x: "path_exists w_cached ''img/Pieris_rapae/0_0.npy''"
    "path_exists w_cached ''img/Pieris_rapae/1_0.npy''"
    "path_exists w_cached ''img/Pieris_napi/2_0.npy''"
    by (simp_all add: path_exists_def w_cached_def)
  have d: "distinct [2, 0, 1 :: nat]" by simp
  have s: "set [2, 0, 1] = {..<length df3}" by (auto simp: df3_def)
  have n: "length df3 = 3" by (simp add: df3_def)
  have p: "fst (img_path_from_row E0 w_cached (snd (df3 ! 0)) (fst (df3 ! 0)) ''identifier'' None)
      = Inr ''img/Pieris_rapae/0_0.npy''"
    "fst (img_path_from_row E0 w_cached (snd (df3 ! 1)) (fst (df3 ! 1)) ''identifier'' None)
      = Inr ''img/Pieris_rapae/1_0.npy''"
    "fst (img_path_from_row E0 w_cached (snd (df3 ! 2)) (fst (df3 ! 2)) ''identifier'' None)
      = Inr ''img/Pieris_napi/2_0.npy''"
    by code_simp+
  have h: "\<forall>k < length df3.
      fst (img_path_from_row E0 w_cached (snd (df3 ! k)) (fst (df3 ! k)) ''identifier'' None)
        = Inr (?ps k) \<and> path_exists w_cached (?ps k)"
  proof (intro allI impI)
    fix k assume "k < length df3"
    with n have "k = 0 \<or> k = 1 \<or> k = 2" by auto
    with p x show "fst (img_path_from_row E0 w_cached (snd (df3 ! k)) (fst (df3 ! k))
        ''identifier'' None) = Inr (?ps k) \<and> path_exists w_cached (?ps k)"
      by auto
  qed
  note a = fetch_cached_idempotent [where E = E0 and w = w_cached
      and r = "mk_row ''http://x.org/b.jpg'' ''Pieris rapae''" and i = 1
      and p = "''img/Pieris_rapae/1_0.npy''" and col = "''identifier''"
      and f = "Inl Timeout" and s = None and sched = "[2, 0, 1]" and df = df3
      and ps = ?ps and net = net_1_timeout and disk = disk_ok]
  from a u x have 1: "fst (save_img E0 ''identifier'' (Inl Timeout) None w_cached
      (mk_row ''http://x.org/b.jpg'' ''Pieris rapae'') 1) = Inr (Str ''img/Pieris_rapae/1_0.npy'')"
    and 2: "trace (snd (save_img E0 ''identifier'' (Inl Timeout) None w_cached
      (mk_row ''http://x.org/b.jpg'' ''Pieris rapae'') 1)) = trace w_cached"
    by blast+
  from a d s h have "fst (fetch_paths E0 ''identifier'' net_1_timeout disk_ok [2, 0, 1] w_cached df3)
      = Some (Inr (map (\<lambda>k. Str (?ps k)) [0..<length df3]))"
    and 4: "trace (snd (fetch_paths E0 ''identifier'' net_1_timeout disk_ok [2, 0, 1] w_cached df3))
      = trace w_cached"
    by blast+
  then have 3: "fst (fetch_paths E0 ''identifier'' net_1_timeout disk_ok [2, 0, 1] w_cached df3)
     = Some (Inr [Str ''img/Pieris_rapae/0_0.npy'', Str ''img/Pieris_rapae/1_0.npy'',
                  Str ''img/Pieris_napi/2_0.npy''])"
    by (simp add: n upt_rec)
  have t: "trace w_cached = []" by (simp add: w_cached_def)
  have d': "distinct [0, 1, 2 :: nat]" by simp
  have s': "set [0, 1, 2] = {..<length df3}" by (auto simp: df3_def)
  have e: "fst (fetch_paths E0 ''identifier'' net_ok disk_ok [2, 0, 1] w0 df3)
     = Some (Inr [Str ''img/Pieris_rapae/0_0.npy'', Str ''img/Pieris_rapae/1_0.npy'',
                  Str ''img/Pieris_napi/2_0.npy''])"
    by code_simp
  have m: "NaN \<notin> set [Str ''img/Pieris_rapae/0_0.npy'', Str ''img/Pieris_rapae/1_0.npy'',
                  Str ''img/Pieris_napi/2_0.npy'']"
    by simp
  note b = fetch_cached_idempotent [where E = E0 and w = w0 and col = "''identifier''"
      and sched = "[2, 0, 1]" and sched' = "[0, 1, 2]" and df = df3
      and net = net_ok and disk = disk_ok and net' = net_1_timeout and disk' = disk_ok
      and paths = "[Str ''img/Pieris_rapae/0_0.npy'', Str ''img/Pieris_rapae/1_0.npy'',
                  Str ''img/Pieris_napi/2_0.npy'']"]
  from b d s d' s' e m have 5:
    "fst (fetch_paths E0 ''identifier'' net_1_timeout disk_ok [0, 1, 2]
      (snd (fetch_paths E0 ''identifier'' net_ok disk_ok [2, 0, 1] w0 df3)) df3)
     = Some (Inr [Str ''img/Pieris_rapae/0_0.npy'', Str ''img/Pieris_rapae/1_0.npy'',
                  Str ''img/Pieris_napi/2_0.npy''])"
    and 6: "trace (snd (fetch_paths E0 ''identifier'' net_1_timeout disk_ok [0, 1, 2]
      (snd (fetch_paths E0 ''identifier'' net_ok disk_ok [2, 0, 1] w0 df3)) df3))
     = trace (snd (fetch_paths E0 ''identifier'' net_ok disk_ok [2, 0, 1] w0 df3))"
    by blast+
  from u x d s p 1 2 3 4 t d' s' e m 5 6 show ?thesis by simp
qed




section \<open>Properties of create\_augmented\_images\<close>

lemma first_field_takeWhile: "first_field name = takeWhile (\<lambda>x. x \<noteq> CHR ''.'') name"
proof -
  have "split_from ''.'' [] name \<noteq> []" by (rule split_from_nonempty)
  then obtain x xs where x: "split_from ''.'' [] name = x # xs"
    by (cases "split_from ''.'' [] name") auto
  with split_from_hd [of "CHR ''.''" "[]" name] show ?thesis
    by (simp add: first_field_def)
qed

lemma first_field_no_dot: "CHR ''.'' \<notin> set (first_field name)"
  by (auto simp: first_field_takeWhile dest: set_takeWhileD)

lemma takeWhile_neq_append:
  "c \<notin> set a \<Longrightarrow> takeWhile (\<lambda>x. x \<noteq> c) (a @ b) = a @ takeWhile (\<lambda>x. x \<noteq> c) b"
  by (induction a) auto

lemma first_field_append:
  "CHR ''.'' \<notin> set a \<Longrightarrow> first_field (a @ b) = a @ first_field b"
  by (simp add: first_field_takeWhile takeWhile_neq_append)

lemma first_field_derived:
  "first_field (first_field name @ ''_'' @ d @ ''.jpg'') = first_field name @ ''_'' @ first_field (d @ ''.jpg'')"
  using first_field_append [of "first_field name @ ''_''" "d @ ''.jpg''"] first_field_no_dot [of name]
  by simp

lemma str_int_degrees:
  "str_int (0 * 90) = ''0''" "str_int (1 * 90) = ''90''"
  "str_int (2 * 90) = ''180''" "str_int (3 * 90) = ''270''"
  by code_simp+

lemma first_field_degrees:
  "first_field ''0.jpg'' = ''0''" "first_field ''90.jpg'' = ''90''"
  "first_field ''180.jpg'' = ''180''" "first_field ''270.jpg'' = ''270''"
  by (simp_all add: first_field_takeWhile)

lemma name_not_derived:
  "name \<noteq> first_field name @ CHR ''_'' # rest"
proof
  assume a: "name = first_field name @ CHR ''_'' # rest"
  have "first_field name = takeWhile (\<lambda>x. x \<noteq> CHR ''.'') name"
    by (rule first_field_takeWhile)
  also have "\<dots> = takeWhile (\<lambda>x. x \<noteq> CHR ''.'') (first_field name @ CHR ''_'' # rest)"
    using a by simp
  also have "\<dots> = first_field name @ takeWhile (\<lambda>x. x \<noteq> CHR ''.'') (CHR ''_'' # rest)"
    using first_field_no_dot [of name] by (simp add: takeWhile_neq_append)
  finally show False by simp
qed

lemma dot_code: "(of_char CHR ''.'' :: nat) = 46"
  by simp

lemma str_int_no_dot: "CHR ''.'' \<notin> set (str_int i)"
proof -
  have "CHR ''.'' \<notin> set (digits n)" for n
    using digits_codes [of "CHR ''.''" n] by (auto simp add: dot_code)
  then show ?thesis by (auto simp: str_int_def)
qed

lemma first_field_rotated:
  "first_field (first_field name @ ''_'' @ str_int d @ ''.jpg'') = first_field name @ ''_'' @ str_int d"
proof -
  have "CHR ''.'' \<notin> set (first_field name @ ''_'' @ str_int d)"
    using first_field_no_dot [of name] str_int_no_dot [of d] by simp
  from first_field_append [OF this, of "''.jpg''"] show ?thesis
    by (simp add: first_field_takeWhile [of "''.jpg''"])
qed

lemma rotate_then_flip:
  assumes "files w (dir @ ''/'' @ name) = Some im"
    and "can_save (rot im d)" and "can_save (flp (rot im d))"
  shows "flip_and_save_image flp can_save
           (rotate_and_save_image rot can_save w dir name d)
           dir (first_field name @ ''_'' @ str_int d @ ''.jpg'') =
         w\<lparr>files := (files w)
             (dir @ ''/'' @ first_field name @ ''_'' @ str_int d @ ''.jpg'' \<mapsto> rot im d,
              dir @ ''/'' @ first_field name @ ''_'' @ str_int d @ ''f.jpg'' \<mapsto> flp (rot im d))\<rparr>"
proof -
  have r: "rotate_and_save_image rot can_save w dir name d =
      w\<lparr>files := (files w)
        (dir @ ''/'' @ first_field name @ ''_'' @ str_int d @ ''.jpg'' \<mapsto> rot im d)\<rparr>"
    using assms(1,2) by (simp add: rotate_and_save_image_def)
  show ?thesis
    unfolding r using assms(3)
    by (simp add: flip_and_save_image_def first_field_rotated [simplified])
qed

lemma original_kept:
  assumes "files w (dir @ ''/'' @ name) = Some im"
  shows "((files w)
             (dir @ ''/'' @ first_field name @ ''_'' @ a \<mapsto> x,
              dir @ ''/'' @ first_field name @ ''_'' @ b \<mapsto> y)) (dir @ ''/'' @ name) = Some im"
  using assms name_not_derived [of name a] name_not_derived [of name b] by auto

text \<open>
  Claim C8. For the degrees "all" and an image that can be opened, whose rotations and
  their mirror images the encoder accepts, the loop body writes eight files beside the
  original: for each of 0, 90, 180 and 270 degrees the rotation, named with the degree
  suffix, and then the flip of that saved rotation, named with a further \<open>f\<close>. The eight
  paths are pairwise different and none is the path of the original; nothing else
  changes. A walk that lists only this image does the same.
\<close>

theorem augment_all_eight_files:
  assumes "files w (dir @ ''/'' @ name) = Some im"
    and "\<forall>d \<in> {0, 90, 180, 270}. can_save (rot im d) \<and> can_save (flp (rot im d))"
  shows "augment_image rot flp can_save w dir name ''all'' =
     w\<lparr>files := (files w)
       (dir @ ''/'' @ first_field name @ ''_0.jpg'' \<mapsto> rot im 0,
        dir @ ''/'' @ first_field name @ ''_0f.jpg'' \<mapsto> flp (rot im 0),
        dir @ ''/'' @ first_field name @ ''_90.jpg'' \<mapsto> rot im 90,
        dir @ ''/'' @ first_field name @ ''_90f.jpg'' \<mapsto> flp (rot im 90),
        dir @ ''/'' @ first_field name @ ''_180.jpg'' \<mapsto> rot im 180,
        dir @ ''/'' @ first_field name @ ''_180f.jpg'' \<mapsto> flp (rot im 180),
        dir @ ''/'' @ first_field name @ ''_270.jpg'' \<mapsto> rot im 270,
        dir @ ''/'' @ first_field name @ ''_270f.jpg'' \<mapsto> flp (rot im 270))\<rparr> \<and>
     distinct
       [dir @ ''/'' @ first_field name @ ''_0.jpg'', dir @ ''/'' @ first_field name @ ''_0f.jpg'',
        dir @ ''/'' @ first_field name @ ''_90.jpg'', dir @ ''/'' @ first_field name @ ''_90f.jpg'',
        dir @ ''/'' @ first_field name @ ''_180.jpg'', dir @ ''/'' @ first_field name @ ''_180f.jpg'',
        dir @ ''/'' @ first_field name @ ''_270.jpg'', dir @ ''/'' @ first_field name @ ''_270f.jpg''] \<and>
     dir @ ''/'' @ name \<notin> set
       [dir @ ''/'' @ first_field name @ ''_0.jpg'', dir @ ''/'' @ first_field name @ ''_0f.jpg'',
        dir @ ''/'' @ first_field name @ ''_90.jpg'', dir @ ''/'' @ first_field name @ ''_90f.jpg'',
        dir @ ''/'' @ first_field name @ ''_180.jpg'', dir @ ''/'' @ first_field name @ ''_180f.jpg'',
        dir @ ''/'' @ first_field name @ ''_270.jpg'', dir @ ''/'' @ first_field name @ ''_270f.jpg''] \<and>
     create_augmented_images rot flp can_save w [(dir, subdirs, [name])] ''all'' =
       augment_image rot flp can_save w dir name ''all''"
proof (intro conjI)
  let ?P = "dir @ ''/'' @ name"
  let ?S = "first_field name"
  let ?step = "\<lambda>w d. flip_and_save_image flp can_save
      (rotate_and_save_image rot can_save w dir name d) dir (?S @ ''_'' @ str_int d @ ''.jpg'')"
  let ?w1 = "w\<lparr>files := (files w)
      (dir @ ''/'' @ ?S @ ''_0.jpg'' \<mapsto> rot im 0, dir @ ''/'' @ ?S @ ''_0f.jpg'' \<mapsto> flp (rot im 0))\<rparr>"
  let ?w2 = "?w1\<lparr>files := (files ?w1)
      (dir @ ''/'' @ ?S @ ''_90.jpg'' \<mapsto> rot im 90, dir @ ''/'' @ ?S @ ''_90f.jpg'' \<mapsto> flp (rot im 90))\<rparr>"
  let ?w3 = "?w2\<lparr>files := (files ?w2)
      (dir @ ''/'' @ ?S @ ''_180.jpg'' \<mapsto> rot im 180, dir @ ''/'' @ ?S @ ''_180f.jpg'' \<mapsto> flp (rot im 180))\<rparr>"
  let ?w4 = "?w3\<lparr>files := (files ?w3)
      (dir @ ''/'' @ ?S @ ''_270.jpg'' \<mapsto> rot im 270, dir @ ''/'' @ ?S @ ''_270f.jpg'' \<mapsto> flp (rot im 270))\<rparr>"
  have si: "str_int 0 = ''0''" "str_int 90 = ''90''" "str_int 180 = ''180''" "str_int 270 = ''270''"
    by code_simp+
  from assms(2) have cs: "can_save (rot im 0)" "can_save (flp (rot im 0))"
    "can_save (rot im 90)" "can_save (flp (rot im 90))"
    "can_save (rot im 180)" "can_save (flp (rot im 180))"
    "can_save (rot im 270)" "can_save (flp (rot im 270))"
    by simp_all
  have k1: "files ?w1 ?P = Some im"
    using original_kept [OF assms(1), of "''0.jpg''" _ "''0f.jpg''"] by simp
  have k2: "files ?w2 ?P = Some im"
    using original_kept [OF k1, of "''90.jpg''" _ "''90f.jpg''"] by simp
  have k3: "files ?w3 ?P = Some im"
    using original_kept [OF k2, of "''180.jpg''" _ "''180f.jpg''"] by simp
  have s1: "?step w 0 = ?w1"
    using rotate_then_flip [where rot = rot and flp = flp and can_save = can_save and d = 0,
        OF assms(1) cs(1,2)] by (simp add: si)
  have s2: "?step ?w1 90 = ?w2"
    using rotate_then_flip [where rot = rot and flp = flp and can_save = can_save and d = 90,
        OF k1 cs(3,4)] by (simp add: si)
  have s3: "?step ?w2 180 = ?w3"
    using rotate_then_flip [where rot = rot and flp = flp and can_save = can_save and d = 180,
        OF k2 cs(5,6)] by (simp add: si)
  have s4: "?step ?w3 270 = ?w4"
    using rotate_then_flip [where rot = rot and flp = flp and can_save = can_save and d = 270,
        OF k3 cs(7,8)] by (simp add: si)
  have "augment_image rot flp can_save w dir name ''all'' = ?step (?step (?step (?step w 0) 90) 180) 270"
    by (simp add: augment_image_def)
  also have "\<dots> = ?w4"
    by (simp only: s1 s2 s3 s4)
  finally show "augment_image rot flp can_save w dir name ''all'' =
     w\<lparr>files := (files w)
       (dir @ ''/'' @ first_field name @ ''_0.jpg'' \<mapsto> rot im 0,
        dir @ ''/'' @ first_field name @ ''_0f.jpg'' \<mapsto> flp (rot im 0),
        dir @ ''/'' @ first_field name @ ''_90.jpg'' \<mapsto> rot im 90,
        dir @ ''/'' @ first_field name @ ''_90f.jpg'' \<mapsto> flp (rot im 90),
        dir @ ''/'' @ first_field name @ ''_180.jpg'' \<mapsto> rot im 180,
        dir @ ''/'' @ first_field name @ ''_180f.jpg'' \<mapsto> flp (rot im 180),
        dir @ ''/'' @ first_field name @ ''_270.jpg'' \<mapsto> rot im 270,
        dir @ ''/'' @ first_field name @ ''_270f.jpg'' \<mapsto> flp (rot im 270))\<rparr>"
    by simp
  show "distinct
       [dir @ ''/'' @ first_field name @ ''_0.jpg'', dir @ ''/'' @ first_field name @ ''_0f.jpg'',
        dir @ ''/'' @ first_field name @ ''_90.jpg'', dir @ ''/'' @ first_field name @ ''_90f.jpg'',
        dir @ ''/'' @ first_field name @ ''_180.jpg'', dir @ ''/'' @ first_field name @ ''_180f.jpg'',
        dir @ ''/'' @ first_field name @ ''_270.jpg'', dir @ ''/'' @ first_field name @ ''_270f.jpg'']"
    by simp
  show "dir @ ''/'' @ name \<notin> set
       [dir @ ''/'' @ first_field name @ ''_0.jpg'', dir @ ''/'' @ first_field name @ ''_0f.jpg'',
        dir @ ''/'' @ first_field name @ ''_90.jpg'', dir @ ''/'' @ first_field name @ ''_90f.jpg'',
        dir @ ''/'' @ first_field name @ ''_180.jpg'', dir @ ''/'' @ first_field name @ ''_180f.jpg'',
        dir @ ''/'' @ first_field name @ ''_270.jpg'', dir @ ''/'' @ first_field name @ ''_270f.jpg'']"
    using name_not_derived [of name] by simp
  show "create_augmented_images rot flp can_save w [(dir, subdirs, [name])] ''all'' =
       augment_image rot flp can_save w dir name ''all''"
    by (simp add: create_augmented_images_def)
qed

theorem augment_all_eight_files_witness:
  "files w_one (''img/Pieris_rapae'' @ ''/'' @ ''a.jpg'') = Some im0 \<and>
   accept_all (quarter_turns im0 0) \<and> accept_all (mirror (quarter_turns im0 0)) \<and>
   accept_all (quarter_turns im0 90) \<and> accept_all (mirror (quarter_turns im0 90)) \<and>
   accept_all (quarter_turns im0 180) \<and> accept_all (mirror (quarter_turns im0 180)) \<and>
   accept_all (quarter_turns im0 270) \<and> accept_all (mirror (quarter_turns im0 270)) \<and>
   dom (files (create_augmented_images quarter_turns mirror accept_all w_one
      [(''img/Pieris_rapae'', [], [''a.jpg''])] ''all'')) =
     {''img/Pieris_rapae/a_270f.jpg'', ''img/Pieris_rapae/a_270.jpg'',
      ''img/Pieris_rapae/a_180f.jpg'', ''img/Pieris_rapae/a_180.jpg'',
      ''img/Pieris_rapae/a_90f.jpg'', ''img/Pieris_rapae/a_90.jpg'',
      ''img/Pieris_rapae/a_0f.jpg'', ''img/Pieris_rapae/a_0.jpg'',
      ''img/Pieris_rapae/a.jpg''} \<and>
   files (create_augmented_images quarter_turns mirror accept_all w_one
      [(''img/Pieris_rapae'', [], [''a.jpg''])] ''all'') ''img/Pieris_rapae/a_90f.jpg''
     = Some (mirror (quarter_turns im0 90))"
proof -
  have f: "files w_one (''img/Pieris_rapae'' @ ''/'' @ ''a.jpg'') = Some im0"
    by (simp add: w_one_def)
  have c: "\<forall>d \<in> {0, 90, 180, 270}.
      accept_all (quarter_turns im0 d) \<and> accept_all (mirror (quarter_turns im0 d))"
    by (simp add: accept_all_def)
  have n: "first_field ''a.jpg'' = ''a''"
    by (simp add: first_field_takeWhile)
  note t = augment_all_eight_files [where w = w_one and dir = "''img/Pieris_rapae''"
      and name = "''a.jpg''" and im = im0 and rot = quarter_turns and flp = mirror
      and can_save = accept_all and subdirs = "[]", OF f c]
  note a = t [THEN conjunct1]
  note b = t [THEN conjunct2, THEN conjunct2, THEN conjunct2]
  have e: "create_augmented_images quarter_turns mirror accept_all w_one
      [(''img/Pieris_rapae'', [], [''a.jpg''])] ''all'' =
     w_one\<lparr>files := (files w_one)
       (''img/Pieris_rapae/a_0.jpg'' \<mapsto> quarter_turns im0 0,
        ''img/Pieris_rapae/a_0f.jpg'' \<mapsto> mirror (quarter_turns im0 0),
        ''img/Pieris_rapae/a_90.jpg'' \<mapsto> quarter_turns im0 90,
        ''img/Pieris_rapae/a_90f.jpg'' \<mapsto> mirror (quarter_turns im0 90),
        ''img/Pieris_rapae/a_180.jpg'' \<mapsto> quarter_turns im0 180,
        ''img/Pieris_rapae/a_180f.jpg'' \<mapsto> mirror (quarter_turns im0 180),
        ''img/Pieris_rapae/a_270.jpg'' \<mapsto> quarter_turns im0 270,
        ''img/Pieris_rapae/a_270f.jpg'' \<mapsto> mirror (quarter_turns im0 270))\<rparr>"
    unfolding b a n by simp
  have d: "dom (files w_one) = {''img/Pieris_rapae/a.jpg''}"
    by (simp add: w_one_def)
  have 1: "dom (files (create_augmented_images quarter_turns mirror accept_all w_one
      [(''img/Pieris_rapae'', [], [''a.jpg''])] ''all'')) =
     {''img/Pieris_rapae/a_270f.jpg'', ''img/Pieris_rapae/a_270.jpg'',
      ''img/Pieris_rapae/a_180f.jpg'', ''img/Pieris_rapae/a_180.jpg'',
      ''img/Pieris_rapae/a_90f.jpg'', ''img/Pieris_rapae/a_90.jpg'',
      ''img/Pieris_rapae/a_0f.jpg'', ''img/Pieris_rapae/a_0.jpg'',
      ''img/Pieris_rapae/a.jpg''}"
    unfolding e by (simp add: d)
  have 2: "files (create_augmented_images quarter_turns mirror accept_all w_one
      [(''img/Pieris_rapae'', [], [''a.jpg''])] ''all'') ''img/Pieris_rapae/a_90f.jpg''
     = Some (mirror (quarter_turns im0 90))"
    unfolding e by simp
  from f 1 2 show ?thesis by (simp add: accept_all_def)
qed

section \<open>Properties of pre\_process\<close>













end
